theory Spec2Isabelle
  imports Complex_Main "HOL-Library.Word" "HOL-Library.Log_Nat"
begin

section \<open>The chat view of nila: data model\<close>

text \<open>
  The chat view is a React function component. Its state lives in three \<open>useState\<close>
  cells (\<open>messages\<close>, \<open>inputText\<close>, \<open>isTyping\<close>); the session credential lives in
  \<open>localStorage\<close> under the key \<open>token\<close>. Everything the component does to the outside
  (navigation, HTTP calls through axios, timers set with \<open>setTimeout\<close>) is recorded in
  the state of the model, so that each handler of the source is a function from state to
  state.

  A JavaScript string is a sequence of UTF-16 code units.
\<close>

type_synonym jsstring = "16 word list"

datatype sender = user | nila

record message =
  id_msg :: int
  text_msg :: jsstring
  sender_msg :: sender
  time_msg :: jsstring

text \<open>
  A pending \<open>setTimeout\<close> callback of \<open>displayBubblesWithDelay\<close>: the closure holds
  \<open>bubbles\<close> and \<open>index\<close>; \<open>delay\<close> is the second argument of \<open>setTimeout\<close>.
\<close>

record timer =
  bubbles :: "jsstring list"
  index :: nat
  delay :: rat

text \<open>The two axios calls of the component, each with the bearer token it sends.\<close>

datatype request = GetHistory jsstring | PostChat jsstring jsstring

text \<open>
  How an awaited axios call settles. A rejection is either an axios error, with
  \<open>error.response?.status\<close> (absent when there was no response), or some other
  exception.
\<close>

datatype error = AxiosError "nat option" | OtherError

datatype 'a settled = Resolved 'a | Rejected error

text \<open>
  What the environment supplies during one run of a handler or callback:
  \<open>Date.now()\<close>, the string \<open>toLocaleTimeString\<close> returns, and the value drawn by
  \<open>Math.random()\<close>.
\<close>

record env =
  now :: int
  timeStr :: jsstring
  random :: rat

record chat =
  messages :: "message list"
  inputText :: jsstring
  isTyping :: bool
  mounted :: bool
  storedToken :: "jsstring option"
  navigated :: "string list"
  requests :: "request list"
  timers :: "timer list"

text \<open>The component as first rendered, over a given content of \<open>localStorage\<close>.\<close>

definition initial :: "jsstring option \<Rightarrow> chat" where
  "initial tok =
     \<lparr>messages = [], inputText = [], isTyping = False, mounted = True,
      storedToken = tok, navigated = [], requests = [], timers = []\<rparr>"

section \<open>Platform operations\<close>

text \<open>
  The state setters returned by \<open>useState\<close>. React discards a state update issued
  for a component that is no longer mounted.
\<close>

definition setMessages :: "(message list \<Rightarrow> message list) \<Rightarrow> chat \<Rightarrow> chat" where
  "setMessages f s = (if mounted s then s\<lparr>messages := f (messages s)\<rparr> else s)"

definition setInputText :: "jsstring \<Rightarrow> chat \<Rightarrow> chat" where
  "setInputText v s = (if mounted s then s\<lparr>inputText := v\<rparr> else s)"

definition setIsTyping :: "bool \<Rightarrow> chat \<Rightarrow> chat" where
  "setIsTyping b s = (if mounted s then s\<lparr>isTyping := b\<rparr> else s)"

text \<open>\<open>localStorage.removeItem('token')\<close> and \<open>navigate(path)\<close>.\<close>

definition removeItem :: "chat \<Rightarrow> chat" where
  "removeItem s = s\<lparr>storedToken := None\<rparr>"

definition navigate :: "string \<Rightarrow> chat \<Rightarrow> chat" where
  "navigate path s = s\<lparr>navigated := navigated s @ [path]\<rparr>"

definition issue :: "request \<Rightarrow> chat \<Rightarrow> chat" where
  "issue r s = s\<lparr>requests := requests s @ [r]\<rparr>"

text \<open>
  \<open>String.prototype.trim\<close> removes white space and line terminators from both ends:
  TAB, LF, VT, FF, CR, SP, NBSP, the Unicode space separators and U+2028, U+2029,
  U+FEFF.
\<close>

definition isWhiteSpace :: "16 word \<Rightarrow> bool" where
  "isWhiteSpace c \<longleftrightarrow>
     c \<in> {0x0009, 0x000A, 0x000B, 0x000C, 0x000D, 0x0020, 0x00A0, 0x1680,
          0x2000, 0x2001, 0x2002, 0x2003, 0x2004, 0x2005, 0x2006, 0x2007,
          0x2008, 0x2009, 0x200A, 0x2028, 0x2029, 0x202F, 0x205F, 0x3000, 0xFEFF}"

definition trim :: "jsstring \<Rightarrow> jsstring" where
  "trim str = rev (dropWhile isWhiteSpace (rev (dropWhile isWhiteSpace str)))"

text \<open>
  \<open>error.response?.status === 401\<close>, under \<open>axios.isAxiosError(error)\<close>.
\<close>

fun is401 :: "error \<Rightarrow> bool" where
  "is401 (AxiosError (Some status)) = (status = 401)"
| "is401 (AxiosError None) = False"
| "is401 OtherError = False"

section \<open>Numbers: the delay of a reveal\<close>

text \<open>
  JavaScript numbers are IEEE 754 binary64 values, and every arithmetic operation
  rounds its exact result to the nearest one, ties to even. The finite values are
  rationals; \<open>binary64\<close> is that rounding, for results below the overflow threshold
  (the delays computed here stay below 2048).
\<close>

definition roundTiesToEven :: "rat \<Rightarrow> int" where
  "roundTiesToEven y =
     (let f = \<lfloor>y\<rfloor>; d = y - of_int f
      in if d < 1 / 2 then f else if 1 / 2 < d then f + 1
         else if even f then f else f + 1)"

text \<open>The binary exponent of a positive rational \<open>q\<close>: the \<open>e\<close> with \<open>2^e \<le> q < 2^(e+1)\<close>.\<close>

definition exponent :: "rat \<Rightarrow> int" where
  "exponent q = (if 1 \<le> q then bitlen \<lfloor>q\<rfloor> - 1 else - bitlen (\<lceil>1 / q\<rceil> - 1))"

definition binary64 :: "rat \<Rightarrow> rat" where
  "binary64 x =
     (if x = 0 then 0
      else let e = max (exponent \<bar>x\<bar>) (- 1022); u = 2 powi (e - 52)
           in of_int (roundTiesToEven (x / u)) * u)"

text \<open>
  The delay computed in \<open>displayBubblesWithDelay\<close>:
  \<^verbatim>\<open>
  const baseDelay = 800
  const randomVar = Math.random() * 500
  const delay = index === 0 ? baseDelay + randomVar : (baseDelay / 2) + randomVar
  \<close>
  with \<open>r\<close> the value of \<open>Math.random()\<close>.
\<close>

definition baseDelay :: rat where
  "baseDelay = 800"

definition randomVar :: "rat \<Rightarrow> rat" where
  "randomVar r = binary64 (r * 500)"

definition delayFor :: "nat \<Rightarrow> rat \<Rightarrow> rat" where
  "delayFor i r =
     (if i = 0 then binary64 (baseDelay + randomVar r)
      else binary64 (binary64 (baseDelay / 2) + randomVar r))"

section \<open>The handlers of the component\<close>

text \<open>
  \<open>displayBubblesWithDelay(bubbles, index)\<close>: past the end it turns the typing
  indicator off; otherwise it draws the delay and sets one timer.
\<close>

definition displayBubblesWithDelay :: "jsstring list \<Rightarrow> nat \<Rightarrow> rat \<Rightarrow> chat \<Rightarrow> chat" where
  "displayBubblesWithDelay bs i r s =
     (if i \<ge> length bs then setIsTyping False s
      else s\<lparr>timers := timers s @ [\<lparr>bubbles = bs, index = i, delay = delayFor i r\<rparr>]\<rparr>)"

text \<open>
  The callback given to \<open>setTimeout\<close>. It appends the bubble at \<open>index\<close> and either
  goes on to the next bubble or turns the typing indicator off.
\<close>

definition reveal :: "jsstring list \<Rightarrow> nat \<Rightarrow> env \<Rightarrow> chat \<Rightarrow> chat" where
  "reveal bs i e s =
     (let newMsg = \<lparr>id_msg = now e + int i, text_msg = bs ! i, sender_msg = nila,
                     time_msg = timeStr e\<rparr>;
          s1 = setMessages (\<lambda>prev. prev @ [newMsg]) s
      in if int i < int (length bs) - 1
         then displayBubblesWithDelay bs (i + 1) (random e) (setIsTyping True s1)
         else setIsTyping False s1)"

text \<open>
  The browser fires the \<open>k\<close>-th pending timer: the timer leaves the pending list and
  its callback runs. A timer that is not pending cannot fire.
\<close>

definition timerFires :: "nat \<Rightarrow> env \<Rightarrow> chat \<Rightarrow> chat option" where
  "timerFires k e s =
     (if k < length (timers s)
      then let t = timers s ! k
           in Some (reveal (bubbles t) (index t) e
                      (s\<lparr>timers := take k (timers s) @ drop (Suc k) (timers s)\<rparr>))
      else None)"

text \<open>
  \<open>handleSend\<close>, up to the \<open>await\<close> of the POST. A token that is \<open>null\<close> or the empty
  string is falsy.
\<close>

definition handleSend :: "env \<Rightarrow> chat \<Rightarrow> chat" where
  "handleSend e s =
     (case storedToken s of
        None \<Rightarrow> navigate ''/login'' s
      | Some token \<Rightarrow>
          if token = [] then navigate ''/login'' s
          else if trim (inputText s) = [] then s
          else
            let userMsg = \<lparr>id_msg = now e, text_msg = inputText s, sender_msg = user,
                            time_msg = timeStr e\<rparr>;
                s1 = setMessages (\<lambda>prev. prev @ [userMsg]) s;
                s2 = setInputText [] s1;
                s3 = setIsTyping True s2
            in issue (PostChat token (text_msg userMsg)) s3)"

text \<open>
  \<open>handleSend\<close> after the \<open>await\<close>: the \<open>try\<close> branch with \<open>response.data.messages\<close>,
  or the \<open>catch\<close> branch. \<open>r\<close> is the value \<open>Math.random()\<close> returns to the first
  call of \<open>displayBubblesWithDelay\<close>.
\<close>

definition handleSend_settled :: "jsstring list settled \<Rightarrow> rat \<Rightarrow> chat \<Rightarrow> chat" where
  "handleSend_settled outcome r s =
     (case outcome of
        Resolved replyBubbles \<Rightarrow> displayBubblesWithDelay replyBubbles 0 r s
      | Rejected err \<Rightarrow>
          let s1 = setIsTyping False s
          in if is401 err then navigate ''/login'' s1 else s1)"

text \<open>\<open>fetchHistory\<close>, run by the effect on mount, up to the \<open>await\<close> of the GET.\<close>

definition fetchHistory :: "chat \<Rightarrow> chat" where
  "fetchHistory s =
     (case storedToken s of
        None \<Rightarrow> navigate ''/login'' s
      | Some token \<Rightarrow>
          if token = [] then navigate ''/login'' s
          else issue (GetHistory token) s)"

text \<open>\<open>fetchHistory\<close> after the \<open>await\<close>.\<close>

definition fetchHistory_settled :: "message list settled \<Rightarrow> chat \<Rightarrow> chat" where
  "fetchHistory_settled outcome s =
     (case outcome of
        Resolved data \<Rightarrow> setMessages (\<lambda>_. data) s
      | Rejected err \<Rightarrow>
          if is401 err then navigate ''/login'' (removeItem s) else s)"

definition handleLogout :: "chat \<Rightarrow> chat" where
  "handleLogout s = navigate ''/login'' (removeItem s)"

text \<open>The \<open>onChange\<close> handler of the input field.\<close>

definition onChange :: "jsstring \<Rightarrow> chat \<Rightarrow> chat" where
  "onChange v s = setInputText v s"

text \<open>
  The component is unmounted. Neither effect of the source returns a cleanup function,
  so nothing of the component runs: timers and requests stay as they are.
\<close>

definition unmount :: "chat \<Rightarrow> chat" where
  "unmount s = s\<lparr>mounted := False\<rparr>"

text \<open>
  Every pending timer was set by \<open>displayBubblesWithDelay\<close> under its guard, so its
  callback reads \<open>bubbles[index]\<close> inside the batch.
\<close>

definition timers_in_range :: "chat \<Rightarrow> bool" where
  "timers_in_range s = list_all (\<lambda>t. index t < length (bubbles t)) (timers s)"

text \<open>
  The Staged Reply Player run on its own: one firing per element of \<open>es\<close>, each of the
  timer set last.
\<close>

fun play :: "env list \<Rightarrow> chat \<Rightarrow> chat option" where
  "play [] s = Some s"
| "play (e # es) s =
     (case timerFires (length (timers s) - 1) e s of
        None \<Rightarrow> None
      | Some s' \<Rightarrow> play es s')"

section \<open>Pending timers stay inside their batch\<close>

lemma timers_in_range_initial: "timers_in_range (initial tok)"
  by (simp add: timers_in_range_def initial_def)

lemma timers_in_range_displayBubblesWithDelay:
  "timers_in_range s \<Longrightarrow> timers_in_range (displayBubblesWithDelay bs i r s)"
  by (simp add: timers_in_range_def displayBubblesWithDelay_def setIsTyping_def)

lemma timers_in_range_reveal:
  "timers_in_range s \<Longrightarrow> timers_in_range (reveal bs i e s)"
  by (simp add: timers_in_range_def reveal_def displayBubblesWithDelay_def
        setMessages_def setIsTyping_def Let_def)

lemma timers_in_range_timerFires:
  assumes "timers_in_range s" and "timerFires k e s = Some s'"
  shows "timers_in_range s' \<and> index (timers s ! k) < length (bubbles (timers s ! k))"
proof -
  from assms(2) have k: "k < length (timers s)"
    by (simp add: timerFires_def split: if_splits)
  let ?s1 = "s\<lparr>timers := take k (timers s) @ drop (Suc k) (timers s)\<rparr>"
  from assms(1) have all: "\<forall>t \<in> set (timers s). index t < length (bubbles t)"
    by (simp add: timers_in_range_def list_all_iff)
  have "set (take k (timers s)) \<subseteq> set (timers s)" by (rule set_take_subset)
  moreover have "set (drop (Suc k) (timers s)) \<subseteq> set (timers s)" by (rule set_drop_subset)
  ultimately have "timers_in_range ?s1"
    using all by (auto simp: timers_in_range_def list_all_iff)
  then have "timers_in_range (reveal (bubbles (timers s ! k)) (index (timers s ! k)) e ?s1)"
    by (rule timers_in_range_reveal)
  moreover from assms(2) k
  have "s' = reveal (bubbles (timers s ! k)) (index (timers s ! k)) e ?s1"
    by (simp add: timerFires_def Let_def)
  moreover from all k have "index (timers s ! k) < length (bubbles (timers s ! k))" by simp
  ultimately show ?thesis by simp
qed

lemma timers_in_range_handlers:
  assumes "timers_in_range s"
  shows "timers_in_range (handleSend e s)"
    and "timers_in_range (handleSend_settled outcome r s)"
    and "timers_in_range (fetchHistory s)"
    and "timers_in_range (fetchHistory_settled fetched s)"
    and "timers_in_range (handleLogout s)"
    and "timers_in_range (onChange v s)"
    and "timers_in_range (unmount s)"
proof -
  show "timers_in_range (handleSend e s)"
    using assms
    by (simp add: timers_in_range_def handleSend_def navigate_def issue_def setMessages_def
          setInputText_def setIsTyping_def Let_def split: option.splits)
  show "timers_in_range (handleSend_settled outcome r s)"
  proof (cases outcome)
    case (Resolved replyBubbles)
    with assms show ?thesis
      by (simp add: handleSend_settled_def timers_in_range_displayBubblesWithDelay)
  next
    case (Rejected err)
    with assms show ?thesis
      by (simp add: handleSend_settled_def timers_in_range_def navigate_def setIsTyping_def
            Let_def)
  qed
  show "timers_in_range (fetchHistory s)"
    using assms
    by (simp add: timers_in_range_def fetchHistory_def navigate_def issue_def
          split: option.splits)
  show "timers_in_range (fetchHistory_settled fetched s)"
    using assms
    by (cases fetched)
       (simp_all add: timers_in_range_def fetchHistory_settled_def navigate_def removeItem_def
          setMessages_def)
  show "timers_in_range (handleLogout s)"
    using assms by (simp add: timers_in_range_def handleLogout_def navigate_def removeItem_def)
  show "timers_in_range (onChange v s)"
    using assms by (simp add: timers_in_range_def onChange_def setInputText_def)
  show "timers_in_range (unmount s)"
    using assms by (simp add: timers_in_range_def unmount_def)
qed

section \<open>The Staged Reply Player\<close>

lemma fire_last_set:
  assumes "i < length bs"
  shows "timerFires (length (timers (displayBubblesWithDelay bs i r s)) - 1) e
           (displayBubblesWithDelay bs i r s) = Some (reveal bs i e s)"
  using assms by (simp add: displayBubblesWithDelay_def timerFires_def)

lemma reveal_last:
  assumes "mounted s" and "Suc i = length bs"
  shows "reveal bs i e s =
           s\<lparr>messages := messages s @
                [\<lparr>id_msg = now e + int i, text_msg = bs ! i, sender_msg = nila,
                  time_msg = timeStr e\<rparr>],
              isTyping := False\<rparr>"
  using assms by (simp add: reveal_def setMessages_def setIsTyping_def Let_def)

lemma reveal_more:
  assumes "mounted s" and "Suc i < length bs"
  shows "reveal bs i e s =
           displayBubblesWithDelay bs (Suc i) (random e)
             (s\<lparr>messages := messages s @
                  [\<lparr>id_msg = now e + int i, text_msg = bs ! i, sender_msg = nila,
                    time_msg = timeStr e\<rparr>],
                isTyping := True\<rparr>)"
  using assms by (simp add: reveal_def setMessages_def setIsTyping_def Let_def)

text \<open>
  Started at any cursor \<open>i\<close> inside the batch and fired once per remaining fragment,
  the player appends the remaining fragments in order and ends with the typing
  indicator off and its timer gone.
\<close>

lemma play_from:
  assumes "mounted s" and "i < length bs" and "length es = length bs - i"
  shows "play es (displayBubblesWithDelay bs i r s) =
           Some (s\<lparr>messages := messages s @
                    map2 (\<lambda>j e. \<lparr>id_msg = now e + int j, text_msg = bs ! j, sender_msg = nila,
                                   time_msg = timeStr e\<rparr>) [i..<length bs] es,
                   isTyping := False\<rparr>)"
  using assms
proof (induction es arbitrary: i r s)
  case Nil
  then show ?case by simp
next
  case (Cons e es)
  have step: "play (e # es) (displayBubblesWithDelay bs i r s) = play es (reveal bs i e s)"
    using fire_last_set [OF Cons.prems(2), of r s e] by simp
  have upt: "[i..<length bs] = i # [Suc i..<length bs]"
    using Cons.prems(2) by (simp add: upt_conv_Cons)
  show ?case
  proof (cases "Suc i = length bs")
    case True
    have "es = []" using Cons.prems(3) True [symmetric] by simp
    with True Cons.prems(1) step upt show ?thesis
      by (simp add: reveal_last)
  next
    case False
    with Cons.prems(2) have more: "Suc i < length bs" by simp
    let ?s1 = "s\<lparr>messages := messages s @
                  [\<lparr>id_msg = now e + int i, text_msg = bs ! i, sender_msg = nila,
                    time_msg = timeStr e\<rparr>],
                isTyping := True\<rparr>"
    have "play es (displayBubblesWithDelay bs (Suc i) (random e) ?s1) =
           Some (?s1\<lparr>messages := messages ?s1 @
                    map2 (\<lambda>j e. \<lparr>id_msg = now e + int j, text_msg = bs ! j, sender_msg = nila,
                                   time_msg = timeStr e\<rparr>) [Suc i..<length bs] es,
                   isTyping := False\<rparr>)"
      using Cons.prems more by (intro Cons.IH) simp_all
    with step upt Cons.prems(1) more show ?thesis
      by (simp add: reveal_more)
  qed
qed

text \<open>
  Before the last reveal the player is still typing: after one firing or more, short of
  the whole batch, the fragments revealed so far are in the log, the typing flag is
  true and the timer of the next fragment is pending.
\<close>

lemma play_prefix:
  assumes "mounted s" and "i + length es < length bs" and "es \<noteq> []"
  shows "play es (displayBubblesWithDelay bs i r s) =
           Some (s\<lparr>messages := messages s @
                    map (\<lambda>(j, e). \<lparr>id_msg = now e + int j, text_msg = bs ! j, sender_msg = nila,
                                   time_msg = timeStr e\<rparr>) (enumerate i es),
                   isTyping := True,
                   timers := timers s @
                     [\<lparr>bubbles = bs, index = i + length es,
                       delay = delayFor (i + length es) (random (last es))\<rparr>]\<rparr>)"
  using assms
proof (induction es arbitrary: i r s)
  case Nil
  then show ?case by simp
next
  case (Cons e es)
  from Cons.prems(2) have i: "i < length bs" and more: "Suc i < length bs" by simp_all
  have step: "play (e # es) (displayBubblesWithDelay bs i r s) = play es (reveal bs i e s)"
    using fire_last_set [OF i, of r s e] by simp
  let ?s1 = "s\<lparr>messages := messages s @
                [\<lparr>id_msg = now e + int i, text_msg = bs ! i, sender_msg = nila,
                  time_msg = timeStr e\<rparr>],
              isTyping := True\<rparr>"
  have rev: "reveal bs i e s = displayBubblesWithDelay bs (Suc i) (random e) ?s1"
    using Cons.prems(1) more by (rule reveal_more)
  show ?case
  proof (cases "es = []")
    case True
    with step rev more show ?thesis
      by (simp add: displayBubblesWithDelay_def)
  next
    case False
    have "play es (displayBubblesWithDelay bs (Suc i) (random e) ?s1) =
           Some (?s1\<lparr>messages := messages ?s1 @
                    map (\<lambda>(j, e). \<lparr>id_msg = now e + int j, text_msg = bs ! j, sender_msg = nila,
                                   time_msg = timeStr e\<rparr>) (enumerate (Suc i) es),
                   isTyping := True,
                   timers := timers ?s1 @
                     [\<lparr>bubbles = bs, index = Suc i + length es,
                       delay = delayFor (Suc i + length es) (random (last es))\<rparr>]\<rparr>)"
      using Cons.prems False by (intro Cons.IH) simp_all
    with step rev False show ?thesis by simp
  qed
qed

lemma text_of_reveals:
  "length es = length bs - i \<Longrightarrow>
   map text_msg (map2 (\<lambda>j e. \<lparr>id_msg = now e + int j, text_msg = bs ! j, sender_msg = nila,
                                   time_msg = timeStr e\<rparr>) [i..<length bs] es) = drop i bs"
  by (rule nth_equalityI) simp_all

text \<open>
  C1. Handed a non-empty batch \<open>bs\<close> at cursor 0 and fired once per fragment (with
  whatever clock readings and random draws \<open>es\<close>, \<open>r\<close>), the player returns, and the
  Message Log has grown by exactly one message per fragment: the texts of the new
  messages are \<open>bs\<close>, in order, every sender is \<open>nila\<close>, and the typing flag is false
  after the last reveal. Nothing else of the state has changed.
\<close>

theorem staged_reply_reveals_each_fragment_once:
  assumes "mounted s" and "bs \<noteq> []" and "length es = length bs"
  shows "\<exists>new. play es (displayBubblesWithDelay bs 0 r s) =
                  Some (s\<lparr>messages := messages s @ new, isTyping := False\<rparr>) \<and>
               new = map2 (\<lambda>j e. \<lparr>id_msg = now e + int j, text_msg = bs ! j, sender_msg = nila,
                                    time_msg = timeStr e\<rparr>) [0..<length bs] es \<and>
               map text_msg new = bs \<and> map sender_msg new = replicate (length bs) nila"
proof -
  have "play es (displayBubblesWithDelay bs 0 r s) =
           Some (s\<lparr>messages := messages s @
                    map2 (\<lambda>j e. \<lparr>id_msg = now e + int j, text_msg = bs ! j, sender_msg = nila,
                                   time_msg = timeStr e\<rparr>) [0..<length bs] es,
                   isTyping := False\<rparr>)"
    using assms by (intro play_from) simp_all
  moreover have "map text_msg (map2 (\<lambda>j e. \<lparr>id_msg = now e + int j, text_msg = bs ! j,
                    sender_msg = nila, time_msg = timeStr e\<rparr>) [0..<length bs] es) = bs"
    using text_of_reveals [of es bs 0] assms(3) by simp
  moreover have "map sender_msg (map2 (\<lambda>j e. \<lparr>id_msg = now e + int j, text_msg = bs ! j,
                    sender_msg = nila, time_msg = timeStr e\<rparr>) [0..<length bs] es)
                 = replicate (length bs) nila"
    using assms(3) by (intro nth_equalityI) simp_all
  ultimately show ?thesis by blast
qed

text \<open>
  The scenario of the specification: the reply batch \<open>["a", "b"]\<close> played after the
  user message \<open>"hi"\<close>.
\<close>

theorem staged_reply_reveals_each_fragment_once_witness:
  "play [\<lparr>now = 3000, timeStr = [0x39], random = 1 / 4\<rparr>,
         \<lparr>now = 3600, timeStr = [0x39], random = 3 / 4\<rparr>]
     (displayBubblesWithDelay [[0x61], [0x62]] 0 (1 / 2)
        ((initial (Some [0x74]))
           \<lparr>messages := [\<lparr>id_msg = 1000, text_msg = [0x68, 0x69], sender_msg = user,
                            time_msg = [0x39]\<rparr>],
             isTyping := True\<rparr>))
   = Some ((initial (Some [0x74]))
           \<lparr>messages := [\<lparr>id_msg = 1000, text_msg = [0x68, 0x69], sender_msg = user,
                            time_msg = [0x39]\<rparr>,
                          \<lparr>id_msg = 3000, text_msg = [0x61], sender_msg = nila,
                            time_msg = [0x39]\<rparr>,
                          \<lparr>id_msg = 3601, text_msg = [0x62], sender_msg = nila,
                            time_msg = [0x39]\<rparr>]\<rparr>)"
proof -
  let ?s = "(initial (Some [0x74]))
           \<lparr>messages := [\<lparr>id_msg = 1000, text_msg = [0x68, 0x69], sender_msg = user,
                            time_msg = [0x39]\<rparr>],
             isTyping := True\<rparr>"
  let ?bs = "[[0x61], [0x62]] :: jsstring list"
  let ?es = "[\<lparr>now = 3000, timeStr = [0x39], random = 1 / 4\<rparr>,
              \<lparr>now = 3600, timeStr = [0x39], random = 3 / 4\<rparr>]"
  have h1: "mounted ?s" by (simp add: initial_def)
  have h2: "?bs \<noteq> []" by simp
  have h3: "length ?es = length ?bs" by simp
  have upt: "[0..<2] = [0, 1]" by (simp add: upt_rec)
  from staged_reply_reveals_each_fragment_once [OF h1 h2 h3, of "1 / 2"]
  show ?thesis by (simp add: initial_def upt)
qed

section \<open>The send pipeline\<close>

lemma messages_displayBubblesWithDelay:
  "messages (displayBubblesWithDelay bs i r s) = messages s"
  by (simp add: displayBubblesWithDelay_def setIsTyping_def)

lemma messages_handleSend_settled:
  "messages (handleSend_settled outcome r s) = messages s"
  by (cases outcome)
     (simp_all add: handleSend_settled_def messages_displayBubblesWithDelay
        setIsTyping_def navigate_def Let_def)

text \<open>
  C3. A send whose trimmed input is empty is rejected: the Message Log, the input
  field, the typing flag, the pending timers and the stored token are as before and
  no request is issued. With a credential present the state is unchanged altogether.
\<close>

theorem blank_send_changes_nothing:
  assumes "trim (inputText s) = []"
  shows "messages (handleSend e s) = messages s \<and>
         inputText (handleSend e s) = inputText s \<and>
         isTyping (handleSend e s) = isTyping s \<and>
         requests (handleSend e s) = requests s \<and>
         timers (handleSend e s) = timers s \<and>
         storedToken (handleSend e s) = storedToken s \<and>
         (\<forall>token. storedToken s = Some token \<and> token \<noteq> [] \<longrightarrow> handleSend e s = s)"
  using assms by (auto simp: handleSend_def navigate_def split: option.splits)

text \<open>A send of two spaces and a tab, with a token stored.\<close>

theorem blank_send_changes_nothing_witness:
  "trim (inputText ((initial (Some [0x74]))\<lparr>inputText := [0x20, 0x20, 0x09]\<rparr>)) = [] \<and>
   handleSend \<lparr>now = 5, timeStr = [], random = 0\<rparr>
     ((initial (Some [0x74]))\<lparr>inputText := [0x20, 0x20, 0x09]\<rparr>)
   = (initial (Some [0x74]))\<lparr>inputText := [0x20, 0x20, 0x09]\<rparr>"
proof -
  let ?s = "(initial (Some [0x74]))\<lparr>inputText := [0x20, 0x20, 0x09]\<rparr>"
  have h: "trim (inputText ?s) = []"
    by (simp add: initial_def trim_def isWhiteSpace_def)
  have t: "storedToken ?s = Some [0x74] \<and> [0x74 :: 16 word] \<noteq> []"
    by (simp add: initial_def)
  from blank_send_changes_nothing [OF h, of "\<lparr>now = 5, timeStr = [], random = 0\<rparr>"] t
  have "handleSend \<lparr>now = 5, timeStr = [], random = 0\<rparr> ?s = ?s" by blast
  with h show ?thesis by simp
qed

text \<open>
  C7. A send with a credential and a non-blank input appends the user message, with
  the raw input as its text, and issues the POST from the state that already holds
  it; however the POST settles (reply batch, 401, any other failure), the Message Log
  afterwards is still the old log followed by the user message.
\<close>

theorem optimistic_append_is_kept:
  assumes "mounted s" and "storedToken s = Some token" and "token \<noteq> []"
    and "trim (inputText s) \<noteq> []"
  shows "messages (handleSend e s) = messages s @
           [\<lparr>id_msg = now e, text_msg = inputText s, sender_msg = user, time_msg = timeStr e\<rparr>] \<and>
         requests (handleSend e s) = requests s @ [PostChat token (inputText s)] \<and>
         (\<forall>outcome r. messages (handleSend_settled outcome r (handleSend e s)) = messages s @
           [\<lparr>id_msg = now e, text_msg = inputText s, sender_msg = user, time_msg = timeStr e\<rparr>])"
  using assms
  by (simp add: handleSend_def Let_def messages_handleSend_settled
        setMessages_def setInputText_def setIsTyping_def issue_def)

text \<open>The user sends \<open>"hi"\<close> and the service answers 401.\<close>

theorem optimistic_append_is_kept_witness:
  "messages (handleSend_settled (Rejected (AxiosError (Some 401))) 0
      (handleSend \<lparr>now = 7, timeStr = [0x39], random = 0\<rparr>
         ((initial (Some [0x74]))\<lparr>inputText := [0x68, 0x69]\<rparr>)))
   = [\<lparr>id_msg = 7, text_msg = [0x68, 0x69], sender_msg = user, time_msg = [0x39]\<rparr>]"
proof -
  let ?s = "(initial (Some [0x74]))\<lparr>inputText := [0x68, 0x69]\<rparr>"
  let ?e = "\<lparr>now = 7, timeStr = [0x39], random = 0\<rparr>"
  have h1: "mounted ?s" by (simp add: initial_def)
  have h2: "storedToken ?s = Some [0x74]" by (simp add: initial_def)
  have h3: "[0x74 :: 16 word] \<noteq> []" by simp
  have h4: "trim (inputText ?s) \<noteq> []" by (simp add: initial_def trim_def isWhiteSpace_def)
  from optimistic_append_is_kept [OF h1 h2 h3 h4, of ?e]
  show ?thesis by (simp add: initial_def)
qed

text \<open>
  C10. The credential check comes first: a send with no token stored (or an empty
  one) does nothing but signal the redirect to \<open>/login\<close>, whatever the input field
  holds; in particular no request is issued.
\<close>

theorem send_without_credential_redirects:
  assumes "storedToken s = None \<or> storedToken s = Some []"
  shows "handleSend e s = s\<lparr>navigated := navigated s @ [''/login'']\<rparr>"
  using assms by (auto simp: handleSend_def navigate_def)

text \<open>No token and a blank input: the redirect is still signaled.\<close>

theorem send_without_credential_redirects_witness:
  "trim (inputText ((initial None)\<lparr>inputText := [0x20]\<rparr>)) = [] \<and>
   handleSend \<lparr>now = 5, timeStr = [], random = 0\<rparr> ((initial None)\<lparr>inputText := [0x20]\<rparr>)
     = (initial None)\<lparr>inputText := [0x20], navigated := [''/login'']\<rparr>"
proof -
  let ?s = "(initial None)\<lparr>inputText := [0x20]\<rparr>"
  have h: "storedToken ?s = None \<or> storedToken ?s = Some []" by (simp add: initial_def)
  from send_without_credential_redirects [OF h, of "\<lparr>now = 5, timeStr = [], random = 0\<rparr>"]
  show ?thesis by (simp add: initial_def trim_def isWhiteSpace_def)
qed

text \<open>
  C6. Handed an empty batch, the player only turns the typing flag off: no message is
  appended and no timer is set.
\<close>

theorem empty_batch_stops_typing:
  assumes "mounted s"
  shows "displayBubblesWithDelay [] 0 r s = s\<lparr>isTyping := False\<rparr>"
  using assms by (simp add: displayBubblesWithDelay_def setIsTyping_def)

text \<open>An empty batch while the typing flag is on.\<close>

theorem empty_batch_stops_typing_witness:
  "displayBubblesWithDelay [] 0 (1 / 2) ((initial None)\<lparr>isTyping := True\<rparr>) = initial None"
proof -
  have h: "mounted ((initial None)\<lparr>isTyping := True\<rparr>)" by (simp add: initial_def)
  from empty_batch_stops_typing [OF h, of "1 / 2"]
  show ?thesis by (simp add: initial_def)
qed

section \<open>History load and authorization failures\<close>

text \<open>
  C8. When the GET of the history resolves, the Message Log is the returned sequence
  as it is; when it is rejected with anything but a 401, the state is untouched. On
  activation with a token stored, that leaves the log empty and no redirect signaled.
\<close>

theorem history_load:
  assumes "mounted s"
  shows "messages (fetchHistory_settled (Resolved data) s) = data \<and>
         (\<not> is401 err \<longrightarrow> fetchHistory_settled (Rejected err) s = s) \<and>
         (token \<noteq> [] \<longrightarrow>
            fetchHistory (initial (Some token)) = issue (GetHistory token) (initial (Some token)) \<and>
            messages (fetchHistory_settled (Resolved data) (fetchHistory (initial (Some token)))) = data \<and>
            (\<not> is401 err \<longrightarrow>
               messages (fetchHistory_settled (Rejected err) (fetchHistory (initial (Some token)))) = [] \<and>
               navigated (fetchHistory_settled (Rejected err) (fetchHistory (initial (Some token)))) = []))"
  using assms
  by (simp add: fetchHistory_settled_def fetchHistory_def setMessages_def issue_def initial_def)

text \<open>
  The scenario of the specification: the history \<open>[{user, "hi"}, {nila, "yo"}]\<close>; and
  a GET that fails without a response.
\<close>

theorem history_load_witness:
  "messages (fetchHistory_settled
      (Resolved [\<lparr>id_msg = 1, text_msg = [0x68, 0x69], sender_msg = user, time_msg = [0x39]\<rparr>,
                 \<lparr>id_msg = 2, text_msg = [0x79, 0x6F], sender_msg = nila, time_msg = [0x39]\<rparr>])
      (fetchHistory (initial (Some [0x74]))))
   = [\<lparr>id_msg = 1, text_msg = [0x68, 0x69], sender_msg = user, time_msg = [0x39]\<rparr>,
      \<lparr>id_msg = 2, text_msg = [0x79, 0x6F], sender_msg = nila, time_msg = [0x39]\<rparr>] \<and>
   messages (fetchHistory_settled (Rejected (AxiosError None))
      (fetchHistory (initial (Some [0x74])))) = [] \<and>
   navigated (fetchHistory_settled (Rejected (AxiosError None))
      (fetchHistory (initial (Some [0x74])))) = []"
proof -
  have h: "mounted (initial (Some [0x74]))" by (simp add: initial_def)
  have n: "\<not> is401 (AxiosError None)" by simp
  have t: "[0x74 :: 16 word] \<noteq> []" by simp
  from history_load [OF h, of _ "AxiosError None" "[0x74]"] n t
  show ?thesis by blast
qed

text \<open>
  C2, on the send path. The user sends \<open>"hi"\<close> with the token \<open>"t"\<close> stored and the POST
  is rejected with status 401: the redirect is signaled, but the token is still
  stored. The same rejection of the history GET removes it.
\<close>

theorem send_unauthorized_keeps_token:
  "storedToken (handleSend_settled (Rejected (AxiosError (Some 401))) 0
      (handleSend \<lparr>now = 7, timeStr = [0x39], random = 0\<rparr>
         ((initial (Some [0x74]))\<lparr>inputText := [0x68, 0x69]\<rparr>))) = Some [0x74] \<and>
   navigated (handleSend_settled (Rejected (AxiosError (Some 401))) 0
      (handleSend \<lparr>now = 7, timeStr = [0x39], random = 0\<rparr>
         ((initial (Some [0x74]))\<lparr>inputText := [0x68, 0x69]\<rparr>))) = [''/login''] \<and>
   storedToken (fetchHistory_settled (Rejected (AxiosError (Some 401)))
      (fetchHistory (initial (Some [0x74])))) = None"
  by (simp add: handleSend_settled_def handleSend_def initial_def trim_def isWhiteSpace_def
        setMessages_def setInputText_def setIsTyping_def issue_def navigate_def
        fetchHistory_settled_def fetchHistory_def removeItem_def Let_def)

section \<open>Message identifiers\<close>

text \<open>
  Inside one batch the \<open>+ index\<close> of the reveal keeps the ids apart: while the clock
  does not run backwards, they increase strictly, also within one millisecond.
\<close>

lemma reveal_ids_increase:
  assumes "length es = length bs" and "sorted (map now es)"
  shows "sorted_wrt (<)
           (map id_msg
              (map2 (\<lambda>j e. \<lparr>id_msg = now e + int j, text_msg = bs ! j, sender_msg = nila,
                              time_msg = timeStr e\<rparr>) [0..<length bs] es))"
proof -
  have "now (es ! i) + int i < now (es ! j) + int j"
    if "i < j" and "j < length es" for i j
  proof -
    from that assms(2) have "map now es ! i \<le> map now es ! j"
      by (intro sorted_nth_mono) simp_all
    with that show ?thesis by simp
  qed
  with assms(1) show ?thesis
    by (simp add: sorted_wrt_iff_nth_less)
qed

lemmas handler_defs =
  initial_def fetchHistory_def fetchHistory_settled_def handleSend_def handleSend_settled_def
  displayBubblesWithDelay_def reveal_def timerFires_def onChange_def unmount_def
  setMessages_def setInputText_def setIsTyping_def issue_def navigate_def removeItem_def
  trim_def isWhiteSpace_def Let_def

text \<open>
  C9, at a failing run. The history is empty; the user sends \<open>"a"\<close> when \<open>Date.now()\<close>
  is 1000 and the service replies with the batch \<open>["x"]\<close>, whose reveal is set with a
  delay of 1050; the user sends \<open>"b"\<close> when \<open>Date.now()\<close> is 3000, and the pending reveal
  fires within the same millisecond. The user message \<open>"b"\<close> and the reply \<open>"x"\<close> are two
  messages of the log with the id 3000.
\<close>

theorem same_tick_ids_collide:
  "map_option messages
     (timerFires 0 \<lparr>now = 3000, timeStr = [0x39], random = 0\<rparr>
        (handleSend \<lparr>now = 3000, timeStr = [0x39], random = 0\<rparr>
           (onChange [0x62]
              (handleSend_settled (Resolved [[0x78]]) (1 / 2)
                 (handleSend \<lparr>now = 1000, timeStr = [0x38], random = 0\<rparr>
                    (onChange [0x61]
                       (fetchHistory_settled (Resolved [])
                          (fetchHistory (initial (Some [0x74]))))))))))
   = Some [\<lparr>id_msg = 1000, text_msg = [0x61], sender_msg = user, time_msg = [0x38]\<rparr>,
           \<lparr>id_msg = 3000, text_msg = [0x62], sender_msg = user, time_msg = [0x39]\<rparr>,
           \<lparr>id_msg = 3000, text_msg = [0x78], sender_msg = nila, time_msg = [0x39]\<rparr>]"
  by (simp add: handler_defs)

section \<open>Teardown\<close>

text \<open>
  The claim C4 fails where it says that teardown cancels the pending reveals. The user
  sends \<open>"hi"\<close>, the service replies with \<open>["a", "b"]\<close>, and the component is unmounted
  while the first reveal is pending: the timer is still set, it fires, and its callback
  sets the timer of the second reveal.
\<close>

theorem teardown_leaves_reveal_pending:
  "timers (unmount
      (handleSend_settled (Resolved [[0x61], [0x62]]) (1 / 2)
         (handleSend \<lparr>now = 1000, timeStr = [0x38], random = 0\<rparr>
            (onChange [0x68, 0x69] (initial (Some [0x74])))))) \<noteq> [] \<and>
   map_option (map index \<circ> timers)
     (timerFires 0 \<lparr>now = 3000, timeStr = [0x39], random = 1 / 4\<rparr>
        (unmount
           (handleSend_settled (Resolved [[0x61], [0x62]]) (1 / 2)
              (handleSend \<lparr>now = 1000, timeStr = [0x38], random = 0\<rparr>
                 (onChange [0x68, 0x69] (initial (Some [0x74]))))))) = Some [1]"
  by (simp add: handler_defs)

text \<open>
  C4, amended. Teardown cancels nothing: every timer pending before it is pending
  after it, and when one fires its callback runs and, unless its fragment is the last
  of the batch, sets the timer of the next reveal. The updates that the callback issues
  on the unmounted component are discarded, so the firing changes the pending timers
  only: the Message Log, the typing flag and the stored token are as teardown left
  them.
\<close>

theorem teardown_cancels_nothing:
  assumes "k < length (timers s)"
  shows "timers (unmount s) = timers s \<and>
         timerFires k e (unmount s) =
           Some ((unmount s)\<lparr>timers :=
                   take k (timers s) @ drop (Suc k) (timers s) @
                   (if int (index (timers s ! k)) < int (length (bubbles (timers s ! k))) - 1
                    then [\<lparr>bubbles = bubbles (timers s ! k), index = index (timers s ! k) + 1,
                           delay = delayFor (index (timers s ! k) + 1) (random e)\<rparr>]
                    else [])\<rparr>)"
  using assms
  by (auto simp: unmount_def timerFires_def reveal_def displayBubblesWithDelay_def
        setMessages_def setIsTyping_def Let_def)

text \<open>The run above: after the late firing the log still holds the user message only.\<close>

theorem teardown_cancels_nothing_witness:
  "map_option messages
     (timerFires 0 \<lparr>now = 3000, timeStr = [0x39], random = 1 / 4\<rparr>
        (unmount
           (handleSend_settled (Resolved [[0x61], [0x62]]) (1 / 2)
              (handleSend \<lparr>now = 1000, timeStr = [0x38], random = 0\<rparr>
                 (onChange [0x68, 0x69] (initial (Some [0x74])))))))
   = Some [\<lparr>id_msg = 1000, text_msg = [0x68, 0x69], sender_msg = user, time_msg = [0x38]\<rparr>]"
proof -
  let ?s = "handleSend_settled (Resolved [[0x61], [0x62]]) (1 / 2)
              (handleSend \<lparr>now = 1000, timeStr = [0x38], random = 0\<rparr>
                 (onChange [0x68, 0x69] (initial (Some [0x74]))))"
  have h: "0 < length (timers ?s)" by (simp add: handler_defs)
  have m: "messages (unmount ?s) =
             [\<lparr>id_msg = 1000, text_msg = [0x68, 0x69], sender_msg = user, time_msg = [0x38]\<rparr>]"
    by (simp add: handler_defs)
  from teardown_cancels_nothing [OF h, of "\<lparr>now = 3000, timeStr = [0x39], random = 1 / 4\<rparr>"] m
  show ?thesis by simp
qed

section \<open>The delay of a reveal\<close>

text \<open>Rounding to the nearest integer stays between the integers around its argument.\<close>

lemma roundTiesToEven_cases:
  "roundTiesToEven y = \<lfloor>y\<rfloor> \<and> y - of_int \<lfloor>y\<rfloor> \<le> 1 / 2 \<or>
   roundTiesToEven y = \<lfloor>y\<rfloor> + 1 \<and> 1 / 2 \<le> y - of_int \<lfloor>y\<rfloor>"
  by (auto simp: roundTiesToEven_def Let_def)

lemma roundTiesToEven_lower:
  assumes "of_int m \<le> y"
  shows "m \<le> roundTiesToEven y"
proof -
  from assms have "m \<le> \<lfloor>y\<rfloor>" by (simp add: le_floor_iff)
  with roundTiesToEven_cases [of y] show ?thesis by auto
qed

lemma roundTiesToEven_upper:
  assumes "y \<le> of_int n"
  shows "roundTiesToEven y \<le> n"
proof -
  from assms have fl: "\<lfloor>y\<rfloor> \<le> n" by (simp add: floor_le_iff) 
  show ?thesis
  proof (cases "y = of_int n")
    case True
    then show ?thesis by (simp add: roundTiesToEven_def)
  next
    case False
    with assms have "y < of_int n" by simp
    then have "\<lfloor>y\<rfloor> < n" by (simp add: floor_less_iff)
    with roundTiesToEven_cases [of y] show ?thesis by auto
  qed
qed

lemma roundTiesToEven_below_half:
  assumes "y < of_int n - 1 / 2"
  shows "roundTiesToEven y < n"
proof -
  from assms have "y < of_int n" by simp
  then have fl: "\<lfloor>y\<rfloor> < n" by (simp add: floor_less_iff)
  show ?thesis
  proof (cases "\<lfloor>y\<rfloor> + 1 < n")
    case True
    with roundTiesToEven_cases [of y] show ?thesis by auto
  next
    case False
    with fl have eq: "\<lfloor>y\<rfloor> = n - 1" by simp
    with assms have "y - of_int \<lfloor>y\<rfloor> < 1 / 2" by simp
    with roundTiesToEven_cases [of y] fl show ?thesis by auto
  qed
qed

text \<open>\<open>exponent\<close> is the binary exponent: it brackets its argument between two powers of 2.\<close>

lemma exponent_bounds:
  assumes "0 < q"
  shows "2 powi exponent q \<le> q \<and> q < 2 powi (exponent q + 1)"
proof (cases "1 \<le> q")
  case True
  define n where "n = \<lfloor>q\<rfloor>"
  from True have n: "0 < n" by (simp add: n_def)
  then have b: "1 \<le> bitlen n" by (simp add: bitlen_alt_def)
  have e: "exponent q = bitlen n - 1" using True by (simp add: exponent_def n_def)
  from bitlen_bounds [OF n] have lo: "2 ^ nat (bitlen n - 1) \<le> n" and hi: "n < 2 ^ nat (bitlen n)"
    by simp_all
  have lo': "(2::rat) ^ nat (bitlen n - 1) \<le> of_int n" using lo by simp
  have hi': "(of_int n :: rat) + 1 \<le> 2 ^ nat (bitlen n)"
  proof -
    from hi have "n + 1 \<le> 2 ^ nat (bitlen n)" by simp
    then have "(of_int (n + 1) :: rat) \<le> of_int (2 ^ nat (bitlen n))" by (simp only: of_int_le_iff)
    then show ?thesis by simp
  qed
  have "(2::rat) powi (bitlen n - 1) = 2 ^ nat (bitlen n - 1)"
    using b by (simp add: power_int_def)
  also note lo'
  also have "of_int n \<le> q" by (simp add: n_def)
  finally have 1: "2 powi exponent q \<le> q" by (simp add: e)
  have "q < of_int n + 1" using floor_correct [of q] by (simp add: n_def)
  also note hi'
  also have "(2::rat) ^ nat (bitlen n) = 2 powi (bitlen n)" using b by (simp add: power_int_def)
  finally have 2: "q < 2 powi (exponent q + 1)" by (simp add: e)
  from 1 2 show ?thesis ..
next
  case False
  with assms have q1: "q < 1" by simp
  define N where "N = \<lceil>1 / q\<rceil>"
  define m where "m = N - 1"
  from assms q1 have "1 < 1 / q" by simp
  then have "1 < N" by (simp add: N_def less_ceiling_iff)
  then have m: "0 < m" by (simp add: m_def)
  then have b: "1 \<le> bitlen m" by (simp add: bitlen_alt_def)
  have e: "exponent q = - bitlen m" using False by (simp add: exponent_def m_def N_def)
  from bitlen_bounds [OF m] have lo: "2 ^ nat (bitlen m - 1) \<le> m" and hi: "m < 2 ^ nat (bitlen m)"
    by simp_all
  have lo': "(2::rat) ^ nat (bitlen m - 1) \<le> of_int m" using lo by simp
  have hi': "(of_int N :: rat) \<le> 2 ^ nat (bitlen m)"
  proof -
    from hi have "N \<le> 2 ^ nat (bitlen m)" by (simp add: m_def)
    then have "(of_int N :: rat) \<le> of_int (2 ^ nat (bitlen m))" by (simp only: of_int_le_iff)
    then show ?thesis by simp
  qed
  have "1 / q \<le> of_int N" by (simp add: N_def)
  also note hi'
  finally have "1 / q \<le> 2 ^ nat (bitlen m)" .
  with assms have "1 / 2 ^ nat (bitlen m) \<le> q"
    by (simp add: field_simps)
  moreover have "(2::rat) powi (- bitlen m) = 1 / 2 ^ nat (bitlen m)"
    using b by (simp add: power_int_def field_simps)
  ultimately have 1: "2 powi exponent q \<le> q" by (simp add: e)
  note lo'
  also have "of_int m < 1 / q" using ceiling_correct [of "1 / q"] by (simp add: m_def N_def)
  finally have "2 ^ nat (bitlen m - 1) < 1 / q" .
  with assms have "q < 1 / 2 ^ nat (bitlen m - 1)"
    by (simp add: field_simps)
  moreover have "(2::rat) powi (- bitlen m + 1) = 1 / 2 ^ nat (bitlen m - 1)"
  proof -
    have "(2::rat) powi (- bitlen m + 1) = 2 powi (- (bitlen m - 1))" by simp
    also have "\<dots> = inverse (2 powi (bitlen m - 1))" by (simp only: power_int_minus)
    also have "\<dots> = 1 / 2 ^ nat (bitlen m - 1)" using b by (simp add: power_int_def field_simps)
    finally show ?thesis .
  qed
  ultimately have 2: "q < 2 powi (exponent q + 1)" by (simp add: e)
  from 1 2 show ?thesis ..
qed

lemma exponent_eq:
  assumes "2 powi e \<le> q" and "q < 2 powi (e + 1)"
  shows "exponent q = e"
proof -
  have pos: "0 < q" by (rule less_le_trans [OF _ assms(1)]) simp
  from exponent_bounds [OF pos]
  have lo: "2 powi exponent q \<le> q" and hi: "q < 2 powi (exponent q + 1)" by simp_all
  have "(2::rat) powi e < 2 powi (exponent q + 1)" using assms(1) hi by simp
  then have 1: "e < exponent q + 1"
    by (metis linorder_not_less one_le_numeral power_int_increasing)
  have "(2::rat) powi exponent q < 2 powi (e + 1)" using lo assms(2) by simp
  then have 2: "exponent q < e + 1"
    by (metis linorder_not_less one_le_numeral power_int_increasing)
  from 1 2 show ?thesis by simp
qed

text \<open>
  Inside the binade \<open>[2^e, 2^(e+1))\<close> the doubles are the multiples of \<open>2^(e-52)\<close>, so
  rounding never leaves an interval whose ends are such multiples.
\<close>

lemma binary64_in_binade:
  assumes "2 powi e \<le> x" and "x < 2 powi (e + 1)" and "- 1022 \<le> e"
  shows "binary64 x = of_int (roundTiesToEven (x / 2 powi (e - 52))) * 2 powi (e - 52)"
proof -
  have pos: "0 < x" by (rule less_le_trans [OF _ assms(1)]) simp
  then have "exponent \<bar>x\<bar> = e" using assms(1,2) by (simp add: exponent_eq)
  with pos assms(3) show ?thesis by (simp add: binary64_def Let_def max_def)
qed

lemma binary64_between:
  assumes "2 powi e \<le> x" and "x < 2 powi (e + 1)" and "- 1022 \<le> e"
    and "of_int m * 2 powi (e - 52) \<le> x" and "x \<le> of_int n * 2 powi (e - 52)"
  shows "of_int m * 2 powi (e - 52) \<le> binary64 x \<and> binary64 x \<le> of_int n * 2 powi (e - 52)"
proof -
  let ?u = "(2::rat) powi (e - 52)"
  have u: "0 < ?u" by simp
  from assms(4) u have "of_int m \<le> x / ?u" by (simp add: field_simps)
  then have 1: "m \<le> roundTiesToEven (x / ?u)" by (rule roundTiesToEven_lower)
  from assms(5) u have "x / ?u \<le> of_int n" by (simp add: field_simps)
  then have 2: "roundTiesToEven (x / ?u) \<le> n" by (rule roundTiesToEven_upper)
  from 1 have "(of_int m :: rat) \<le> of_int (roundTiesToEven (x / ?u))" by (simp only: of_int_le_iff)
  with u have 3: "of_int m * ?u \<le> of_int (roundTiesToEven (x / ?u)) * ?u"
    by (simp only: mult_le_cancel_right_pos)
  from 2 have "(of_int (roundTiesToEven (x / ?u)) :: rat) \<le> of_int n" by (simp only: of_int_le_iff)
  with u have 4: "of_int (roundTiesToEven (x / ?u)) * ?u \<le> of_int n * ?u"
    by (simp only: mult_le_cancel_right_pos)
  from 3 4 show ?thesis by (simp only: binary64_in_binade [OF assms(1,2,3)])
qed

lemma binary64_nonneg:
  assumes "0 \<le> x"
  shows "0 \<le> binary64 x"
proof (cases "x = 0")
  case True
  then show ?thesis by (simp add: binary64_def)
next
  case False
  let ?u = "(2::rat) powi (max (exponent \<bar>x\<bar>) (- 1022) - 52)"
  have u: "0 < ?u" by simp
  with assms have "of_int 0 \<le> x / ?u" by simp
  then have "0 \<le> roundTiesToEven (x / ?u)" by (rule roundTiesToEven_lower)
  then have "(0::rat) \<le> of_int (roundTiesToEven (x / ?u))" by simp
  with u have "0 \<le> of_int (roundTiesToEven (x / ?u)) * ?u" by simp
  with False show ?thesis by (simp add: binary64_def Let_def)
qed

lemma binary64_below_pow2:
  assumes "0 < x" and "x < 2 powi n" and "- 1021 \<le> n"
  shows "binary64 x \<le> 2 powi n"
proof -
  define e where "e = max (exponent x) (- 1022)"
  let ?u = "(2::rat) powi (e - 52)"
  have u: "0 < ?u" by simp
  from exponent_bounds [OF assms(1)]
  have lo: "2 powi exponent x \<le> x" and hi: "x < 2 powi (exponent x + 1)" by simp_all
  have "(2::rat) powi exponent x < 2 powi n" using lo assms(2) by simp
  then have "exponent x < n"
    by (metis linorder_not_less one_le_numeral power_int_increasing)
  with assms(3) have en: "e + 1 \<le> n" by (simp add: e_def)
  have "exponent x + 1 \<le> e + 1" by (simp add: e_def)
  then have "(2::rat) powi (exponent x + 1) \<le> 2 powi (e + 1)"
    by (intro power_int_increasing) simp_all
  with hi have xe: "x < 2 powi (e + 1)" by simp
  have split: "(2::rat) powi (e + 1) = 2 ^ 53 * ?u"
  proof -
    have eq: "e + 1 = 53 + (e - 52)" by simp
    have "(2::rat) powi (e + 1) = 2 powi 53 * ?u"
      by (subst eq, subst power_int_add) simp_all
    then show ?thesis by simp
  qed
  from xe have "x < 2 ^ 53 * ?u" by (simp only: split)
  with u have "x / ?u < 2 ^ 53" by (simp add: field_simps)
  then have "x / ?u \<le> of_int (2 ^ 53)" by simp
  then have "roundTiesToEven (x / ?u) \<le> 2 ^ 53" by (rule roundTiesToEven_upper)
  then have "(of_int (roundTiesToEven (x / ?u)) :: rat) \<le> of_int (2 ^ 53)"
    by (simp only: of_int_le_iff)
  with u have "of_int (roundTiesToEven (x / ?u)) * ?u \<le> of_int (2 ^ 53) * ?u"
    by (simp only: mult_le_cancel_right_pos)
  also have "\<dots> = 2 powi (e + 1)" by (simp add: split)
  also have "\<dots> \<le> 2 powi n" using en by (intro power_int_increasing) simp_all
  finally show ?thesis using assms(1) by (simp add: binary64_def Let_def e_def)
qed

text \<open>The largest double below 1 is \<open>1 - 2^(-53)\<close>.\<close>

lemma double_below_one:
  assumes "r < 1" and "binary64 r = r"
  shows "r \<le> 1 - 1 / 2 ^ 53"
proof (cases "r < 1 / 2")
  case True
  then show ?thesis by simp
next
  case False
  define k where "k = roundTiesToEven (r / 2 powi (- 1 - 52))"
  have "binary64 r = of_int k * 2 powi (- 1 - 52)"
    unfolding k_def using False assms(1) by (intro binary64_in_binade) simp_all
  with assms(2) have r: "r = of_int k / 2 ^ 53" by (simp add: field_simps)
  with assms(1) have "(of_int k :: rat) < of_int (2 ^ 53)" by (simp add: field_simps)
  then have "k < 2 ^ 53" by (simp only: of_int_less_iff)
  then have "k \<le> 2 ^ 53 - 1" by simp
  then have "(of_int k :: rat) \<le> of_int (2 ^ 53 - 1)" by (simp only: of_int_le_iff)
  then show ?thesis by (simp add: r field_simps)
qed

lemma randomVar_bounds:
  assumes "0 \<le> r" and "r < 1" and "binary64 r = r"
  shows "0 \<le> randomVar r \<and> randomVar r < 500"
proof -
  define x where "x = r * 500"
  have x0: "0 \<le> x" using assms(1) by (simp add: x_def)
  then have lower: "0 \<le> binary64 x" by (rule binary64_nonneg)
  from double_below_one [OF assms(2,3)]
  have top: "x \<le> 500 - 500 / 2 ^ 53" by (simp add: x_def)
  have upper: "binary64 x < 500"
  proof (cases "x < 256")
    case True
    show ?thesis
    proof (cases "x = 0")
      case True
      then show ?thesis by (simp add: binary64_def)
    next
      case False
      with x0 have "0 < x" by simp
      moreover from True have "x < 2 powi 8" by simp
      ultimately have "binary64 x \<le> 2 powi 8" by (rule binary64_below_pow2) simp
      then show ?thesis by simp
    qed
  next
    case False
    let ?y = "x / 2 powi (8 - 52)"
    have bin: "binary64 x = of_int (roundTiesToEven ?y) * 2 powi (8 - 52)"
      using False top by (intro binary64_in_binade) simp_all
    from top have "?y < of_int (500 * 2 ^ 44) - 1 / 2" by (simp add: field_simps)
    then have "roundTiesToEven ?y < 500 * 2 ^ 44" by (rule roundTiesToEven_below_half)
    then have "(of_int (roundTiesToEven ?y) :: rat) < of_int (500 * 2 ^ 44)"
      by (simp only: of_int_less_iff)
    then show ?thesis by (simp add: bin field_simps)
  qed
  from lower upper show ?thesis by (simp add: randomVar_def x_def)
qed

lemma binary64_800_plus:
  assumes "0 \<le> j" and "j < 500"
  shows "800 \<le> binary64 (800 + j) \<and> binary64 (800 + j) \<le> 1300"
proof (cases "800 + j < 1024")
  case True
  have "of_int (800 * 2 ^ 43) * 2 powi (9 - 52) \<le> binary64 (800 + j) \<and>
        binary64 (800 + j) \<le> of_int (2 ^ 53) * 2 powi (9 - 52)"
    using True assms by (intro binary64_between) simp_all
  then show ?thesis by simp
next
  case False
  have "of_int (2 ^ 52) * 2 powi (10 - 52) \<le> binary64 (800 + j) \<and>
        binary64 (800 + j) \<le> of_int (1300 * 2 ^ 42) * 2 powi (10 - 52)"
    using False assms by (intro binary64_between) simp_all
  then show ?thesis by simp
qed

lemma binary64_400_plus:
  assumes "0 \<le> j" and "j < 500"
  shows "400 \<le> binary64 (400 + j) \<and> binary64 (400 + j) \<le> 900"
proof (cases "400 + j < 512")
  case True
  have "of_int (400 * 2 ^ 44) * 2 powi (8 - 52) \<le> binary64 (400 + j) \<and>
        binary64 (400 + j) \<le> of_int (2 ^ 53) * 2 powi (8 - 52)"
    using True assms by (intro binary64_between) simp_all
  then show ?thesis by simp
next
  case False
  have "of_int (2 ^ 52) * 2 powi (9 - 52) \<le> binary64 (400 + j) \<and>
        binary64 (400 + j) \<le> of_int (900 * 2 ^ 43) * 2 powi (9 - 52)"
    using False assms by (intro binary64_between) simp_all
  then show ?thesis by simp
qed

lemma binary64_400: "binary64 400 = 400"
proof -
  have "of_int (400 * 2 ^ 44) * 2 powi (8 - 52) \<le> binary64 400 \<and>
        binary64 400 \<le> of_int (400 * 2 ^ 44) * 2 powi (8 - 52)"
    by (intro binary64_between) simp_all
  then show ?thesis by simp
qed

text \<open>
  The claim C5 fails at the upper end of its intervals. For the draw
  \<open>r = 1 - 2^(-53)\<close>, the largest value \<open>Math.random()\<close> can return, the jitter is
  \<open>500 - 2^(-44)\<close>, and the sums \<open>800 + J\<close> and \<open>400 + J\<close> round up to 1300 and 900:
  the delay is neither \<open>D + J\<close> nor below 1300 (900).
\<close>

theorem delay_reaches_upper_end:
  "binary64 (1 - 1 / 2 ^ 53) = 1 - 1 / 2 ^ 53 \<and>
   randomVar (1 - 1 / 2 ^ 53) = 500 - 1 / 2 ^ 44 \<and>
   delayFor 0 (1 - 1 / 2 ^ 53) = 1300 \<and>
   delayFor 1 (1 - 1 / 2 ^ 53) = 900"
  by code_simp

text \<open>
  C5, amended. For every draw \<open>r\<close> of \<open>Math.random()\<close> (a double with \<open>0 \<le> r < 1\<close>)
  the jitter \<open>J = randomVar r\<close> lies in \<open>[0, 500)\<close>, and the delay of the timer set at
  cursor \<open>c\<close> is the double nearest to \<open>D + J\<close>, with \<open>D = 800\<close> at cursor 0 and \<open>D = 400\<close>
  at every other cursor; the first delay lies in \<open>[800, 1300]\<close> and every later one in
  \<open>[400, 900]\<close>.
\<close>

theorem delay_of_reveal:
  assumes "0 \<le> r" and "r < 1" and "binary64 r = r"
  shows "0 \<le> randomVar r \<and> randomVar r < 500 \<and>
         delayFor c r = binary64 ((if c = 0 then 800 else 400) + randomVar r) \<and>
         (c < length bs \<longrightarrow>
            timers (displayBubblesWithDelay bs c r s) =
              timers s @ [\<lparr>bubbles = bs, index = c, delay = delayFor c r\<rparr>]) \<and>
         (c = 0 \<longrightarrow> 800 \<le> delayFor c r \<and> delayFor c r \<le> 1300) \<and>
         (c \<noteq> 0 \<longrightarrow> 400 \<le> delayFor c r \<and> delayFor c r \<le> 900)"
proof -
  from randomVar_bounds [OF assms] have j: "0 \<le> randomVar r" "randomVar r < 500" by simp_all
  have d: "delayFor c r = binary64 ((if c = 0 then 800 else 400) + randomVar r)"
    by (simp add: delayFor_def baseDelay_def binary64_400)
  have t: "c < length bs \<longrightarrow>
            timers (displayBubblesWithDelay bs c r s) =
              timers s @ [\<lparr>bubbles = bs, index = c, delay = delayFor c r\<rparr>]"
    by (simp add: displayBubblesWithDelay_def)
  have first: "c = 0 \<longrightarrow> 800 \<le> delayFor c r \<and> delayFor c r \<le> 1300"
    using binary64_800_plus [OF j] d by auto
  have later: "c \<noteq> 0 \<longrightarrow> 400 \<le> delayFor c r \<and> delayFor c r \<le> 900"
    using binary64_400_plus [OF j] d by auto
  from j d t first later show ?thesis by blast
qed

text \<open>The draw \<open>1/2\<close>: the first delay is 1050 and a later one is 650.\<close>

theorem delay_of_reveal_witness:
  "800 \<le> delayFor 0 (1 / 2) \<and> delayFor 0 (1 / 2) \<le> 1300 \<and>
   400 \<le> delayFor 1 (1 / 2) \<and> delayFor 1 (1 / 2) \<le> 900 \<and>
   randomVar (1 / 2) < 500"
proof -
  have h1: "(0::rat) \<le> 1 / 2" by simp
  have h2: "(1 / 2 :: rat) < 1" by simp
  have h3: "binary64 (1 / 2) = 1 / 2" by code_simp
  from delay_of_reveal [OF h1 h2 h3, of 0 "[]" "initial None"]
    delay_of_reveal [OF h1 h2 h3, of 1 "[]" "initial None"]
  show ?thesis by simp
qed

end
